theory Spec2Isabelle
  imports Complex_Main
begin

section \<open>The page of \<^verbatim>\<open>src/app/page.tsx\<close>: static content\<close>

text \<open>
  The page is one React component, \<^verbatim>\<open>Home\<close>, over three module-level tables. A
  JavaScript string is modelled as a \<^typ>\<open>string\<close>; the page only compares and displays
  strings, so a character outside ASCII (the dash of the byte grid) is written as its
  UTF-8 bytes. A JavaScript \<^verbatim>\<open>number\<close> that holds an index or a count is an
  \<^typ>\<open>int\<close>, or a \<^typ>\<open>nat\<close> where it is the index argument of a \<^verbatim>\<open>map\<close> callback.
\<close>

record Interpretation =
  id_str :: string
  label :: string
  snippet :: string
  explanation :: string
  view :: "string list"

record QuizQuestion =
  question :: string
  options :: "string list"
  answer :: int
  explanation :: string

definition reinterpretations :: "Interpretation list" where
  \<open>reinterpretations = [
    \<lparr>id_str = ''char'',
     label = ''char*'',
     snippet = ''void *buffer = malloc(8);\<newline>char *text = (char*)buffer;\<newline>text[0] = 'A';'',
     explanation = ''Treat the raw memory as characters. Great for byte-by-byte access, but you must ensure there is enough allocated space.'',
     view = [[CHR 0x27, CHR ''A'', CHR 0x27] @ '' (0x41)'', [CHR 0x27, CHR 0x5C, CHR ''0'', CHR 0x27],
             ''?'', ''?'', ''?'', ''?'', ''?'', ''?'']\<rparr>,
    \<lparr>id_str = ''int'',
     label = ''int*'',
     snippet = ''void *buffer = malloc(sizeof(int));\<newline>int *value = static_cast<int*>(buffer);\<newline>*value = 1024;'',
     explanation = ''Reinterpret the bytes as a 32-bit integer. Alignment matters: the buffer must be suitably aligned for the target type.'',
     view = [''0x00'', ''0x04'', ''0x00'', ''0x00'', ''?'', ''?'', ''?'', ''?'']\<rparr>,
    \<lparr>id_str = ''double'',
     label = ''double*'',
     snippet = ''alignas(double) std::byte buffer[8];\<newline>void *raw = buffer;\<newline>double *pi = static_cast<double*>(raw);\<newline>*pi = 3.1415926535;'',
     explanation = ''Large types demand careful alignment. Here the same bytes encode an IEEE-754 double. Misaligned access on some CPUs causes crashes.'',
     view = [''0x18'', ''0x2D'', ''0x44'', ''0x54'', ''0xFB'', ''0x21'', ''0x09'', ''0x40'']\<rparr>,
    \<lparr>id_str = ''struct'',
     label = ''struct Example*'',
     snippet = ''struct Example { int id; float ratio; };\<newline>void *opaque = create();\<newline>Example *ex = reinterpret_cast<Example*>(opaque);\<newline>printf("%d %.2f'' @ [CHR 0x5C] @ ''n", ex->id, ex->ratio);'',
     explanation = ''Opaque APIs often return void pointers to hide implementation details. The caller must cast back to the concrete type safely.'',
     view = [''id: 7'', ''id bytes...'', ''ratio: 0.75f'', ''...'']\<rparr>]\<close>

definition quizQuestions :: "QuizQuestion list" where
  "quizQuestions = [
    \<lparr>question = ''Why does C provide void pointers?'',
     options = [
       ''To automatically convert data to any type without casting.'',
       ''To store addresses generically when the pointed-to type is unknown.'',
       ''To let the compiler infer the correct type later.'',
       ''To prevent manual memory management.''],
     answer = 1,
     explanation = ''A void pointer represents an address without a declared pointed-to type, which is useful for generic containers and APIs.''\<rparr>,
    \<lparr>question = ''Which operation is illegal directly on a void pointer?'',
     options = [
       ''Comparing the address with another pointer.'',
       ''Assigning NULL.'',
       ''Incrementing with pointer arithmetic.'',
       ''Casting to a typed pointer.''],
     answer = 2,
     explanation = ''Pointer arithmetic needs the size of the pointed-to type. A void pointer lacks that info, so you must cast before arithmetic.''\<rparr>,
    \<lparr>question = ''What must you guarantee before casting a void* back to a struct*?'',
     options = [
       ''The struct has only primitive fields.'',
       ''The memory was aligned and originally allocated for that struct type.'',
       ''The struct is marked with typedef.'',
       ''The struct size is less than 16 bytes.''],
     answer = 1,
     explanation = ''You must cast only to the type that was originally stored there and respect alignment requirements.''\<rparr>]"

subsection \<open>The eight blocks of the byte grid\<close>

text \<open>
  \<^verbatim>\<open>(0x1000 + index).toString(16).toUpperCase()\<close>: the digits of a number to base 16,
  most significant first, then every lower-case letter replaced by its capital (the
  digits of a number are ASCII, so the table of the 26 ASCII letters is all that is
  needed).
\<close>

definition hexDigit :: "nat \<Rightarrow> char" where
  "hexDigit d = ''0123456789abcdef'' ! d"

function toString16 :: "nat \<Rightarrow> string" where
  "toString16 n = (if n < 16 then [hexDigit n] else toString16 (n div 16) @ [hexDigit (n mod 16)])"
  by pat_completeness auto
termination
  by (relation "measure (\<lambda>n. n)") auto

declare toString16.simps [simp del]

definition toUpperCase :: "string \<Rightarrow> string" where
  "toUpperCase cs =
     map (\<lambda>c. case map_of (zip ''abcdefghijklmnopqrstuvwxyz'' ''ABCDEFGHIJKLMNOPQRSTUVWXYZ'') c of
                 Some u \<Rightarrow> u
               | None \<Rightarrow> c) cs"

record pointerBlock =
  index :: nat
  address :: string

definition pointerBlocks :: "pointerBlock list" where
  "pointerBlocks =
     map (\<lambda>index. \<lparr>index = index, address = ''0x'' @ toUpperCase (toString16 (0x1000 + index))\<rparr>)
       [0..<8]"

section \<open>The state of the page and its handlers\<close>

subsection \<open>JavaScript arrays of numbers\<close>

text \<open>
  An element of a JavaScript array of numbers is a number, the value
  \<^verbatim>\<open>undefined\<close>, or an empty slot (a hole), which reads as \<^verbatim>\<open>undefined\<close>
  and which \<^verbatim>\<open>reduce\<close> skips. The handlers below only write numbers at existing
  indices when they are called from the buttons the page renders; the other two
  constructors say what JavaScript does otherwise.
\<close>

datatype slot = Empty | Undefined | Number int

text \<open>\<^verbatim>\<open>[...prev]\<close>: a copy made by iteration, in which a hole becomes \<^verbatim>\<open>undefined\<close>.\<close>

definition spread :: "slot list \<Rightarrow> slot list" where
  "spread prev = map (\<lambda>v. case v of Empty \<Rightarrow> Undefined | _ \<Rightarrow> v) prev"

text \<open>
  \<^verbatim>\<open>next[index] = v\<close>: a write inside the array replaces the element; a write past
  the end extends the array, leaving holes between the old end and the new element.
\<close>

definition array_set :: "slot list \<Rightarrow> nat \<Rightarrow> slot \<Rightarrow> slot list" where
  "array_set arr i v =
     (if i < length arr then arr[i := v]
      else arr @ replicate (i - length arr) Empty @ [v])"

text \<open>
  \<^verbatim>\<open>xs.reduce(f, init)\<close> calls \<^verbatim>\<open>f(accumulator, element, index)\<close> from index 0 upwards
  and skips the holes.
\<close>

fun reduce_from :: "(nat \<Rightarrow> slot \<Rightarrow> nat \<Rightarrow> nat) \<Rightarrow> nat \<Rightarrow> nat \<Rightarrow> slot list \<Rightarrow> nat" where
  "reduce_from f acc i [] = acc"
| "reduce_from f acc i (Empty # rest) = reduce_from f acc (Suc i) rest"
| "reduce_from f acc i (x # rest) = reduce_from f (f acc x i) (Suc i) rest"

definition reduce :: "slot list \<Rightarrow> (nat \<Rightarrow> slot \<Rightarrow> nat \<Rightarrow> nat) \<Rightarrow> nat \<Rightarrow> nat" where
  "reduce xs f init = reduce_from f init 0 xs"

text \<open>\<^verbatim>\<open>view[i]\<close> on an array of strings: \<^const>\<open>None\<close> is \<^verbatim>\<open>undefined\<close>.\<close>

definition view_get :: "string list \<Rightarrow> nat \<Rightarrow> string option" where
  "view_get xs i = (if i < length xs then Some (xs ! i) else None)"

subsection \<open>State\<close>

text \<open>The three \<^verbatim>\<open>useState\<close> cells of \<^verbatim>\<open>Home\<close>.\<close>

record page_state =
  selectedId :: string
  quizAnswers :: "slot list"
  submitted :: bool

text \<open>
  The initial values: \<^verbatim>\<open>reinterpretations[0].id\<close>,
  \<^verbatim>\<open>Array.from({ length: quizQuestions.length }, () => -1)\<close> and \<^verbatim>\<open>false\<close>.
\<close>

definition unanswered :: "slot list" where
  "unanswered = replicate (length quizQuestions) (Number (- 1))"

definition initial :: page_state where
  "initial = \<lparr>selectedId = id_str (reinterpretations ! 0), quizAnswers = unanswered, submitted = False\<rparr>"

text \<open>The state setters; \<^verbatim>\<open>setQuizAnswers\<close> is used in both of its forms.\<close>

definition setSelectedId :: "string \<Rightarrow> page_state \<Rightarrow> page_state" where
  "setSelectedId v s = s\<lparr>selectedId := v\<rparr>"

definition setQuizAnswers :: "(slot list \<Rightarrow> slot list) \<Rightarrow> page_state \<Rightarrow> page_state" where
  "setQuizAnswers f s = s\<lparr>quizAnswers := f (quizAnswers s)\<rparr>"

definition setSubmitted :: "bool \<Rightarrow> page_state \<Rightarrow> page_state" where
  "setSubmitted v s = s\<lparr>submitted := v\<rparr>"

subsection \<open>Derived values\<close>

text \<open>
  \<^verbatim>\<open>reinterpretations.find((entry) => entry.id === selectedId) ?? reinterpretations[0]\<close>,
  the specification's \<^verbatim>\<open>current()\<close>.
\<close>

definition selectedInterpretation :: "page_state \<Rightarrow> Interpretation" where
  "selectedInterpretation s =
     (case find (\<lambda>entry. id_str entry = selectedId s) reinterpretations of
        Some entry \<Rightarrow> entry
      | None \<Rightarrow> reinterpretations ! 0)"

text \<open>
  The score is
  \<^verbatim>\<open>quizAnswers.reduce((total, answer, index) => { if (answer ===
  quizQuestions[index]?.answer) { return total + 1; } return total; }, 0)\<close>, where
  \<^verbatim>\<open>quizQuestions[index]?.answer\<close> is \<^verbatim>\<open>undefined\<close> past the end of the table. The
  question table is a parameter of \<open>score_with\<close>, so that the score can also be stated
  for a table other than the page's own; \<open>score\<close> is the page's value. The accumulator
  \<^verbatim>\<open>total\<close> is called \<open>acc\<close> (\<^const>\<open>total\<close> is a constant of HOL).
\<close>

definition answer_at :: "QuizQuestion list \<Rightarrow> nat \<Rightarrow> slot" where
  "answer_at qs i = (if i < length qs then Number (answer (qs ! i)) else Undefined)"

text \<open>
  The callback never sees a hole, so \<^verbatim>\<open>===\<close> on its two arguments is equality of
  \<^const>\<open>Undefined\<close> and \<^const>\<open>Number\<close> values.
\<close>

definition score_with :: "QuizQuestion list \<Rightarrow> slot list \<Rightarrow> nat" where
  "score_with qs answers =
     reduce answers (\<lambda>acc a i. if a = answer_at qs i then acc + 1 else acc) 0"

definition score :: "page_state \<Rightarrow> nat" where
  "score s = score_with quizQuestions (quizAnswers s)"

text \<open>
  A cell of the byte grid shows
  \<^verbatim>\<open>selectedInterpretation.view[block.index] ?? d\<close>, where the fallback \<open>d\<close> is
  a string of one character, U+2014 (an em dash), here as its three UTF-8 bytes.
\<close>

definition placeholder :: string where
  "placeholder = [CHR 0xE2, CHR 0x80, CHR 0x94]"

definition cell_text :: "Interpretation \<Rightarrow> pointerBlock \<Rightarrow> string" where
  "cell_text entry block =
     (case view_get (view entry) (index block) of Some v \<Rightarrow> v | None \<Rightarrow> placeholder)"

definition grid :: "page_state \<Rightarrow> string list" where
  "grid s = map (cell_text (selectedInterpretation s)) pointerBlocks"

subsection \<open>Handlers\<close>

text \<open>
  The page has four kinds of button. The specification calls their handlers
  \<^verbatim>\<open>select\<close>, \<^verbatim>\<open>chooseAnswer\<close>, \<^verbatim>\<open>reset\<close> and \<^verbatim>\<open>submit\<close>.
  \<^item> An interpretation button: \<^verbatim>\<open>() => setSelectedId(interpretation.id)\<close>.
  \<^item> The button of option \<open>optionIndex\<close> of question \<open>index\<close>:
    \<^verbatim>\<open>if (submitted) return; setQuizAnswers((prev) => { const next = [...prev];
    next[index] = optionIndex; return next; })\<close>.
  \<^item> Reset: \<^verbatim>\<open>setSubmitted(false); setQuizAnswers(Array.from(...))\<close>.
  \<^item> Submit: \<^verbatim>\<open>setSubmitted(true)\<close>.
\<close>

definition select :: "string \<Rightarrow> page_state \<Rightarrow> page_state" where
  "select ident s = setSelectedId ident s"

definition chooseAnswer :: "nat \<Rightarrow> nat \<Rightarrow> page_state \<Rightarrow> page_state" where
  "chooseAnswer i optionIndex s =
     (if submitted s then s
      else setQuizAnswers (\<lambda>prev. array_set (spread prev) i (Number (int optionIndex))) s)"

definition reset :: "page_state \<Rightarrow> page_state" where
  "reset s = setQuizAnswers (\<lambda>_. unanswered) (setSubmitted False s)"

definition submit :: "page_state \<Rightarrow> page_state" where
  "submit s = setSubmitted True s"

text \<open>
  A click is an event. The page renders one interpretation button per entry of
  \<open>reinterpretations\<close> and one option button per option of each question, so these are
  the clicks it can receive.
\<close>

datatype event =
  Select string
| ChooseAnswer nat nat
| Reset
| Submit

fun rendered :: "event \<Rightarrow> bool" where
  "rendered (Select ident) = (ident \<in> set (map id_str reinterpretations))"
| "rendered (ChooseAnswer i optionIndex) =
     (i < length quizQuestions \<and> optionIndex < length (options (quizQuestions ! i)))"
| "rendered Reset = True"
| "rendered Submit = True"

fun onClick :: "event \<Rightarrow> page_state \<Rightarrow> page_state" where
  "onClick (Select ident) s = select ident s"
| "onClick (ChooseAnswer i optionIndex) s = chooseAnswer i optionIndex s"
| "onClick Reset s = reset s"
| "onClick Submit s = submit s"

definition run :: "event list \<Rightarrow> page_state \<Rightarrow> page_state" where
  "run es s = foldl (\<lambda>s e. onClick e s) s es"

section \<open>The specification's notions\<close>

text \<open>
  The definitions of this section follow the words of the specification, to be
  compared with the page's own functions above.
\<close>

text \<open>
  The invariant on the recorded answers: one entry per question, each the sentinel \<open>-1\<close>
  or an option index of its question.
\<close>

definition entry_ok :: "slot \<Rightarrow> QuizQuestion \<Rightarrow> bool" where
  "entry_ok a q =
     (case a of Number n \<Rightarrow> n = - 1 \<or> (0 \<le> n \<and> n < int (length (options q))) | _ \<Rightarrow> False)"

definition answers_ok :: "slot list \<Rightarrow> bool" where
  "answers_ok xs = (length xs = length quizQuestions \<and> list_all2 entry_ok xs quizQuestions)"

text \<open>
  A sequence of \<^verbatim>\<open>chooseAnswer\<close> calls is a list of pairs (question index, option
  index). The latest recorded answer of question \<open>i\<close> after the calls is the option of
  the last call for \<open>i\<close>, or what was recorded before when there is no such call.
\<close>

definition latest :: "slot list \<Rightarrow> (nat \<times> nat) list \<Rightarrow> nat \<Rightarrow> slot" where
  "latest before calls i =
     (let mine = filter (\<lambda>c. fst c = i) calls
      in if mine = [] then before ! i else Number (int (snd (last mine))))"

definition chooseAll :: "(nat \<times> nat) list \<Rightarrow> page_state \<Rightarrow> page_state" where
  "chooseAll calls s = run (map (\<lambda>c. ChooseAnswer (fst c) (snd c)) calls) s"

text \<open>
  The display string of a byte, as the views write it: \<^verbatim>\<open>0x\<close> and two upper-case
  hexadecimal digits.
\<close>

definition spec_byte_text :: "nat \<Rightarrow> string" where
  "spec_byte_text b = ''0x'' @ toUpperCase (toString16 (b div 16) @ toString16 (b mod 16))"

text \<open>
  IEEE-754 binary64, in exact arithmetic. Eight bytes in little-endian order make a
  64-bit word: one sign bit, eleven exponent bits, fifty-two fraction bits. The unit in
  the last place of a word is the distance to the next value of the same exponent. A
  word of exponent 2047 is an infinity or a NaN and has no value.
\<close>

definition spec_le_word :: "nat list \<Rightarrow> nat" where
  "spec_le_word bs = foldr (\<lambda>b w. b + 256 * w) bs 0"

definition spec_binary64_ulp :: "nat \<Rightarrow> rat" where
  "spec_binary64_ulp w =
     (let e = w div 2 ^ 52 mod 2 ^ 11
      in if e = 0 then 1 / 2 ^ 1074
         else if e < 1075 then 1 / 2 ^ (1075 - e)
         else 2 ^ (e - 1075))"

definition spec_binary64 :: "nat \<Rightarrow> rat option" where
  "spec_binary64 w =
     (let sign = w div 2 ^ 63 mod 2; e = w div 2 ^ 52 mod 2 ^ 11; m = w mod 2 ^ 52;
          mag = (if e = 0 then of_nat m else of_nat (2 ^ 52 + m)) * spec_binary64_ulp w
      in if e = 2047 then None else Some (if sign = 1 then - mag else mag))"

section \<open>Facts about the static content\<close>

lemma ids_reinterpretations:
  "map id_str reinterpretations = [''char'', ''int'', ''double'', ''struct'']"
  by (simp add: reinterpretations_def)

lemma views_reinterpretations:
  "map view reinterpretations =
     [[[CHR 0x27, CHR ''A'', CHR 0x27] @ '' (0x41)'', [CHR 0x27, CHR 0x5C, CHR ''0'', CHR 0x27],
       ''?'', ''?'', ''?'', ''?'', ''?'', ''?''],
      [''0x00'', ''0x04'', ''0x00'', ''0x00'', ''?'', ''?'', ''?'', ''?''],
      [''0x18'', ''0x2D'', ''0x44'', ''0x54'', ''0xFB'', ''0x21'', ''0x09'', ''0x40''],
      [''id: 7'', ''id bytes...'', ''ratio: 0.75f'', ''...'']]"
  by (simp add: reinterpretations_def)

lemma length_reinterpretations: "length reinterpretations = 4"
  using arg_cong [OF ids_reinterpretations, of length] by simp

lemma distinct_ids: "distinct (map id_str reinterpretations)"
  by (simp add: ids_reinterpretations)

lemma id_str_nth:
  "i < 4 \<Longrightarrow> id_str (reinterpretations ! i) = map id_str reinterpretations ! i"
  by (simp add: length_reinterpretations)

lemma view_nth:
  "i < 4 \<Longrightarrow> view (reinterpretations ! i) = map view reinterpretations ! i"
  by (simp add: length_reinterpretations)

lemma view_lengths: "map (\<lambda>entry. length (view entry)) reinterpretations = [8, 8, 8, 4]"
  using arg_cong [OF views_reinterpretations, of "map length"] by (simp add: comp_def)

lemma view_length_le:
  assumes "entry \<in> set reinterpretations"
  shows "length (view entry) \<le> 8"
proof -
  from assms
  have "length (view entry) \<in> set (map (\<lambda>entry. length (view entry)) reinterpretations)"
    by (simp add: image_iff) blast
  then show ?thesis unfolding view_lengths by auto
qed

lemma answers_quizQuestions: "map answer quizQuestions = [1, 2, 1]"
  by (simp add: quizQuestions_def)

lemma option_counts_quizQuestions: "map (\<lambda>q. length (options q)) quizQuestions = [4, 4, 4]"
  by (simp add: quizQuestions_def)

lemma length_quizQuestions: "length quizQuestions = 3"
  using arg_cong [OF answers_quizQuestions, of length] by simp

lemma answer_nth: "i < 3 \<Longrightarrow> answer (quizQuestions ! i) = map answer quizQuestions ! i"
  by (simp add: length_quizQuestions)

lemma option_count_nth:
  "i < 3 \<Longrightarrow> length (options (quizQuestions ! i)) = map (\<lambda>q. length (options q)) quizQuestions ! i"
  by (simp add: length_quizQuestions)

lemma sentinel_not_correct:
  assumes "i < length quizQuestions"
  shows "answer (quizQuestions ! i) \<noteq> - 1"
proof -
  from assms have "answer (quizQuestions ! i) \<in> set (map answer quizQuestions)"
    by (simp add: image_iff) (metis nth_mem)
  then show ?thesis unfolding answers_quizQuestions by auto
qed

lemma unanswered_eq: "unanswered = [Number (- 1), Number (- 1), Number (- 1)]"
  by (simp add: unanswered_def length_quizQuestions numeral_3_eq_3)

lemma upt_3: "[0..<3] = [0, 1, 2]"
  by (simp add: upt_rec)

lemma upt_8: "[0..<8] = [0, 1, 2, 3, 4, 5, 6, 7]"
  by (simp add: upt_rec)

lemma index_pointerBlocks: "map index pointerBlocks = [0..<8]"
  by (simp add: pointerBlocks_def comp_def)

lemma address_pointerBlocks:
  "map address pointerBlocks =
     [''0x1000'', ''0x1001'', ''0x1002'', ''0x1003'', ''0x1004'', ''0x1005'', ''0x1006'', ''0x1007'']"
  by (simp add: pointerBlocks_def upt_8 toString16.simps hexDigit_def toUpperCase_def)

section \<open>The interpretation selector\<close>

lemma find_by_key:
  "distinct (map f xs) \<Longrightarrow> x \<in> set xs \<Longrightarrow> find (\<lambda>entry. f entry = f x) xs = Some x"
  by (induction xs) (auto simp: image_iff)

lemma find_no_key:
  "k \<notin> set (map f xs) \<Longrightarrow> find (\<lambda>entry. f entry = k) xs = None"
  by (induction xs) auto

lemma selectedId_select: "selectedId (select ident s) = ident"
  by (simp add: select_def setSelectedId_def)

lemma current_known:
  assumes "entry \<in> set reinterpretations" and "selectedId s = id_str entry"
  shows "selectedInterpretation s = entry"
  using find_by_key [OF distinct_ids assms(1)] assms(2)
  by (simp add: selectedInterpretation_def)

lemma current_unknown:
  assumes "selectedId s \<notin> set (map id_str reinterpretations)"
  shows "selectedInterpretation s = reinterpretations ! 0"
  using find_no_key [OF assms] by (simp add: selectedInterpretation_def)

lemma current_in_table: "selectedInterpretation s \<in> set reinterpretations"
proof (cases "selectedId s \<in> set (map id_str reinterpretations)")
  case True
  then obtain e where "e \<in> set reinterpretations" "selectedId s = id_str e"
    by auto
  then show ?thesis by (simp add: current_known)
next
  case False
  then show ?thesis by (simp add: current_unknown length_reinterpretations)
qed

lemma current_double:
  "selectedInterpretation (select ''double'' s) = reinterpretations ! 2"
  by (rule current_known)
     (simp_all add: selectedId_select length_reinterpretations id_str_nth ids_reinterpretations)

lemma current_struct:
  "selectedInterpretation (select ''struct'' s) = reinterpretations ! 3"
  by (rule current_known)
     (simp_all add: selectedId_select length_reinterpretations id_str_nth ids_reinterpretations)

text \<open>
  Claim C8. For every id that is the identifier of some interpretation, after
  \<^verbatim>\<open>select(id)\<close> the current interpretation is an entry of the table, its identifier
  is \<open>id\<close>, and it is the only entry with that identifier.
\<close>

theorem select_then_current:
  assumes "ident \<in> set (map id_str reinterpretations)"
  shows "selectedInterpretation (select ident s) \<in> set reinterpretations \<and>
         id_str (selectedInterpretation (select ident s)) = ident \<and>
         (\<forall>entry \<in> set reinterpretations.
            id_str entry = ident \<longrightarrow> entry = selectedInterpretation (select ident s))"
proof -
  from assms obtain e where e: "e \<in> set reinterpretations" "id_str e = ident"
    by auto
  have cur: "selectedInterpretation (select ident s) = e'"
    if "e' \<in> set reinterpretations" "id_str e' = ident" for e'
    using that by (intro current_known) (simp_all add: selectedId_select)
  from cur [OF e] e cur show ?thesis by auto
qed

text \<open>
  Claim C8 at the id \<open>double\<close>, from the initial state: the current interpretation is
  the third entry of the table, the one whose identifier is \<open>double\<close>.
\<close>

theorem select_then_current_witness:
  "''double'' \<in> set (map id_str reinterpretations) \<and>
   selectedInterpretation (select ''double'' initial) \<in> set reinterpretations \<and>
   id_str (selectedInterpretation (select ''double'' initial)) = ''double'' \<and>
   reinterpretations ! 2 \<in> set reinterpretations \<and>
   id_str (reinterpretations ! 2) = ''double'' \<and>
   reinterpretations ! 2 = selectedInterpretation (select ''double'' initial)"
proof -
  have h: "''double'' \<in> set (map id_str reinterpretations)"
    by (simp add: ids_reinterpretations)
  have m: "reinterpretations ! 2 \<in> set reinterpretations"
    by (simp add: length_reinterpretations)
  have i: "id_str (reinterpretations ! 2) = ''double''"
    by (simp add: id_str_nth ids_reinterpretations)
  from select_then_current [OF h, of initial] h m i show ?thesis by blast
qed

text \<open>
  Claim C2, as stated, fails: with \<open>double\<close> selected, selecting the unknown id
  \<open>float\<close> changes the current interpretation (to the first entry, \<open>char\<close>).
\<close>

theorem select_unknown_counterexample:
  "''float'' \<notin> set (map id_str reinterpretations) \<and>
   selectedInterpretation (select ''float'' (select ''double'' initial)) \<noteq>
     selectedInterpretation (select ''double'' initial)"
proof -
  have unknown: "''float'' \<notin> set (map id_str reinterpretations)"
    by (simp add: ids_reinterpretations)
  have "selectedInterpretation (select ''float'' (select ''double'' initial)) = reinterpretations ! 0"
    by (rule current_unknown) (simp add: selectedId_select ids_reinterpretations)
  then have a: "id_str (selectedInterpretation (select ''float'' (select ''double'' initial))) = ''char''"
    by (simp add: id_str_nth ids_reinterpretations)
  have b: "id_str (selectedInterpretation (select ''double'' initial)) = ''double''"
    by (simp add: current_double id_str_nth ids_reinterpretations)
  have "selectedInterpretation (select ''float'' (select ''double'' initial)) \<noteq>
     selectedInterpretation (select ''double'' initial)"
  proof
    assume "selectedInterpretation (select ''float'' (select ''double'' initial)) =
      selectedInterpretation (select ''double'' initial)"
    with a b have "''char'' = ''double''" by simp
    then show False by simp
  qed
  with unknown show ?thesis by (rule conjI)
qed

text \<open>
  Claim C2, amended. For every state, \<^verbatim>\<open>select(id)\<close> with an id that matches no
  interpretation stores that id, and the current interpretation is then the default
  first entry, whatever it was before. The functions are total: no error is raised.
\<close>

theorem select_unknown_gives_default:
  assumes "ident \<notin> set (map id_str reinterpretations)"
  shows "selectedId (select ident s) = ident \<and>
         selectedInterpretation (select ident s) = reinterpretations ! 0 \<and>
         selectedInterpretation (select ident s) = selectedInterpretation initial"
proof -
  have "selectedInterpretation (select ident s) = reinterpretations ! 0"
    using assms by (intro current_unknown) (simp add: selectedId_select)
  moreover have "selectedInterpretation initial = reinterpretations ! 0"
    by (intro current_known) (simp_all add: initial_def length_reinterpretations)
  ultimately show ?thesis by (simp add: selectedId_select)
qed

text \<open>Claim C2, amended, at the unknown id \<open>float\<close> with \<open>double\<close> selected before.\<close>

theorem select_unknown_gives_default_witness:
  "''float'' \<notin> set (map id_str reinterpretations) \<and>
   selectedId (select ''float'' (select ''double'' initial)) = ''float'' \<and>
   selectedInterpretation (select ''float'' (select ''double'' initial)) = reinterpretations ! 0 \<and>
   selectedInterpretation (select ''float'' (select ''double'' initial)) = selectedInterpretation initial"
proof -
  have h: "''float'' \<notin> set (map id_str reinterpretations)"
    by (simp add: ids_reinterpretations)
  from h select_unknown_gives_default [OF h, of "select ''double'' initial"]
  show ?thesis by (rule conjI)
qed

section \<open>The byte grid\<close>

lemma cells_padded:
  "length xs \<le> n \<Longrightarrow>
   map (\<lambda>i. case view_get xs i of Some v \<Rightarrow> v | None \<Rightarrow> p) [0..<n] = xs @ replicate (n - length xs) p"
  by (rule nth_equalityI) (auto simp: view_get_def nth_append)

lemma grid_eq:
  "grid s = map (\<lambda>i. case view_get (view (selectedInterpretation s)) i of
                        Some v \<Rightarrow> v | None \<Rightarrow> placeholder) [0..<8]"
proof -
  have "grid s = map ((\<lambda>i. case view_get (view (selectedInterpretation s)) i of
                        Some v \<Rightarrow> v | None \<Rightarrow> placeholder) \<circ> index) pointerBlocks"
    by (simp add: grid_def cell_text_def comp_def)
  also have "\<dots> = map (\<lambda>i. case view_get (view (selectedInterpretation s)) i of
                        Some v \<Rightarrow> v | None \<Rightarrow> placeholder) (map index pointerBlocks)"
    by simp
  finally show ?thesis by (simp only: index_pointerBlocks)
qed

lemma grid_padded:
  "grid s = view (selectedInterpretation s) @
              replicate (8 - length (view (selectedInterpretation s))) placeholder"
  unfolding grid_eq by (rule cells_padded) (rule view_length_le [OF current_in_table])

text \<open>
  Claim C3, as stated, fails twice at the interpretation \<open>struct\<close>: its byte-view has 4
  entries, not 8, and the fifth cell of the grid then shows an em dash, not a question
  mark.
\<close>

theorem struct_view_counterexample:
  "selectedInterpretation (select ''struct'' initial) \<in> set reinterpretations \<and>
   length (view (selectedInterpretation (select ''struct'' initial))) = 4 \<and>
   grid (select ''struct'' initial) ! 4 = [CHR 0xE2, CHR 0x80, CHR 0x94] \<and>
   grid (select ''struct'' initial) ! 4 \<noteq> ''?''"
proof -
  have v: "view (selectedInterpretation (select ''struct'' initial)) =
             [''id: 7'', ''id bytes...'', ''ratio: 0.75f'', ''...'']"
    by (simp add: current_struct view_nth views_reinterpretations)
  have "grid (select ''struct'' initial) ! 4 = [CHR 0xE2, CHR 0x80, CHR 0x94]"
    by (simp add: grid_padded v placeholder_def)
  with v show ?thesis by (simp add: current_in_table)
qed

text \<open>
  Claim C3, amended. The byte-views of the four interpretations have 8, 8, 8 and 4
  entries. In every state the grid has exactly 8 cells: the entries of the current
  byte-view in order, then an em dash (U+2014) for every slot past the end of the view.
\<close>

theorem grid_shows_view_then_dashes:
  "map (\<lambda>entry. length (view entry)) reinterpretations = [8, 8, 8, 4] \<and>
   length (view (selectedInterpretation s)) \<le> 8 \<and>
   length (grid s) = 8 \<and>
   grid s = view (selectedInterpretation s) @
              replicate (8 - length (view (selectedInterpretation s))) [CHR 0xE2, CHR 0x80, CHR 0x94]"
proof -
  have le: "length (view (selectedInterpretation s)) \<le> 8"
    by (rule view_length_le [OF current_in_table])
  with grid_padded [of s] show ?thesis
    by (simp add: view_lengths placeholder_def)
qed




text \<open>
  A note on the authored bytes, in exact arithmetic. Read in little-endian order as a
  binary64 word, the eight bytes of the view are the value 7074237752028440 / 2^51, the
  double nearest to \<open>\<pi>\<close> (3.141592653589793 to sixteen digits). This value lies more
  than 202196 units in the last place above 3.1415926535, the literal that the entry's
  snippet stores; the double within half a unit of that literal has the bytes
  \<open>44 17 41 54 FB 21 09 40\<close>. The sibling entry \<open>int\<close> shows the bytes of its snippet's
  1024. The claim above is about the list that the page shows.
\<close>

lemma le_word_view:
  "spec_le_word [0x18, 0x2D, 0x44, 0x54, 0xFB, 0x21, 0x09, 0x40] = 0x400921FB54442D18"
  by (simp add: spec_le_word_def)

lemma le_word_literal:
  "spec_le_word [0x44, 0x17, 0x41, 0x54, 0xFB, 0x21, 0x09, 0x40] = 0x400921FB54411744"
  by (simp add: spec_le_word_def)

lemma ulp_view: "spec_binary64_ulp 0x400921FB54442D18 = 1 / 2 ^ 51"
  by (simp add: spec_binary64_ulp_def Let_def)

lemma ulp_literal: "spec_binary64_ulp 0x400921FB54411744 = 1 / 2 ^ 51"
  by (simp add: spec_binary64_ulp_def Let_def)

lemma binary64_view: "spec_binary64 0x400921FB54442D18 = Some (7074237752028440 / 2 ^ 51)"
  by (simp add: spec_binary64_def Let_def ulp_view)

lemma binary64_literal: "spec_binary64 0x400921FB54411744 = Some (7074237751826244 / 2 ^ 51)"
  by (simp add: spec_binary64_def Let_def ulp_literal)

lemma authored_bytes_decoded:
  "spec_binary64 (spec_le_word [0x18, 0x2D, 0x44, 0x54, 0xFB, 0x21, 0x09, 0x40]) =
     Some (7074237752028440 / 2 ^ 51) \<and>
   spec_binary64_ulp (spec_le_word [0x18, 0x2D, 0x44, 0x54, 0xFB, 0x21, 0x09, 0x40]) = 1 / 2 ^ 51 \<and>
   2 * \<bar>7074237752028440 / 2 ^ 51 - 3141592653589793 / 10 ^ 15\<bar> < (1 / 2 ^ 51 :: rat) \<and>
   202196 * (1 / 2 ^ 51 :: rat) < 7074237752028440 / 2 ^ 51 - 31415926535 / 10 ^ 10 \<and>
   spec_binary64 (spec_le_word [0x44, 0x17, 0x41, 0x54, 0xFB, 0x21, 0x09, 0x40]) =
     Some (7074237751826244 / 2 ^ 51) \<and>
   2 * \<bar>7074237751826244 / 2 ^ 51 - 31415926535 / 10 ^ 10\<bar> < (1 / 2 ^ 51 :: rat)"
  by (simp add: le_word_view le_word_literal binary64_view binary64_literal ulp_view)

lemma int_view_bytes:
  "view (selectedInterpretation (select ''int'' s)) =
     map spec_byte_text [0x00, 0x04, 0x00, 0x00] @ [''?'', ''?'', ''?'', ''?''] \<and>
   spec_le_word [0x00, 0x04, 0x00, 0x00] = 1024"
proof -
  have c: "selectedInterpretation (select ''int'' s) = reinterpretations ! 1"
    by (rule current_known)
       (simp_all add: selectedId_select length_reinterpretations id_str_nth ids_reinterpretations)
  show ?thesis
    by (simp add: c view_nth views_reinterpretations spec_byte_text_def toString16.simps
        hexDigit_def toUpperCase_def spec_le_word_def)
qed

section \<open>The quiz\<close>

text \<open>
  Claim C4. For every question index and option index, \<^verbatim>\<open>chooseAnswer\<close> in the
  Reviewed state returns the state it was given: recorded answers, submitted flag and
  selected id are all unchanged. The handler is a total function: no error is raised.
\<close>

theorem chooseAnswer_reviewed_noop:
  "submitted s \<Longrightarrow> chooseAnswer i optionIndex s = s"
  by (simp add: chooseAnswer_def)

text \<open>Claim C4 at the initial state after a submit, for option 2 of question 1.\<close>

theorem chooseAnswer_reviewed_noop_witness:
  "submitted (submit initial) \<and>
   chooseAnswer 1 2 (submit initial) = submit initial \<and>
   quizAnswers (chooseAnswer 1 2 (submit initial)) = [Number (- 1), Number (- 1), Number (- 1)]"
proof -
  have h: "submitted (submit initial)"
    by (simp add: submit_def setSubmitted_def)
  have "quizAnswers (submit initial) = [Number (- 1), Number (- 1), Number (- 1)]"
    by (simp add: submit_def setSubmitted_def initial_def unanswered_eq)
  with h chooseAnswer_reviewed_noop [OF h, of 1 2] show ?thesis by simp
qed

text \<open>
  Claim C5. From every state, \<^verbatim>\<open>reset()\<close> gives the Answering state (submitted is
  false) in which there is one recorded answer per question and each is the sentinel
  \<open>-1\<close>.
\<close>

theorem reset_returns_to_answering:
  "submitted (reset s) = False \<and>
   quizAnswers (reset s) = replicate (length quizQuestions) (Number (- 1)) \<and>
   quizAnswers (reset s) = [Number (- 1), Number (- 1), Number (- 1)]"
  by (simp add: reset_def setQuizAnswers_def setSubmitted_def unanswered_eq length_quizQuestions
      numeral_3_eq_3)

text \<open>
  Claim C6. \<^verbatim>\<open>submit()\<close> is idempotent: from every state, two calls in a row give
  the same state as one call, which is Reviewed with the recorded answers unchanged.
\<close>

theorem submit_idempotent:
  "submit (submit s) = submit s \<and>
   submitted (submit s) = True \<and>
   quizAnswers (submit s) = quizAnswers s"
  by (simp add: submit_def setSubmitted_def)

text \<open>
  Claim C10. The two slices of the state are independent: \<^verbatim>\<open>select\<close> leaves the
  recorded answers and the submitted flag unchanged, and \<^verbatim>\<open>chooseAnswer\<close>,
  \<^verbatim>\<open>submit\<close> and \<^verbatim>\<open>reset\<close> leave the selected id (and so the current
  interpretation) unchanged.
\<close>

theorem slices_independent:
  "quizAnswers (select ident s) = quizAnswers s \<and>
   submitted (select ident s) = submitted s \<and>
   selectedId (chooseAnswer i optionIndex s) = selectedId s \<and>
   selectedId (submit s) = selectedId s \<and>
   selectedId (reset s) = selectedId s \<and>
   selectedInterpretation (chooseAnswer i optionIndex s) = selectedInterpretation s \<and>
   selectedInterpretation (submit s) = selectedInterpretation s \<and>
   selectedInterpretation (reset s) = selectedInterpretation s"
  by (simp add: select_def chooseAnswer_def submit_def reset_def setSelectedId_def
      setQuizAnswers_def setSubmitted_def selectedInterpretation_def)

subsection \<open>The invariant of the recorded answers\<close>

lemma entry_ok_not_hole: "entry_ok a q \<Longrightarrow> a \<noteq> Empty"
  by (auto simp: entry_ok_def)

lemma entries_ok_no_hole: "list_all2 entry_ok xs qs \<Longrightarrow> \<forall>a \<in> set xs. a \<noteq> Empty"
  by (induction rule: list_all2_induct) (auto dest: entry_ok_not_hole)

lemma spread_numbers: "\<forall>a \<in> set xs. a \<noteq> Empty \<Longrightarrow> spread xs = xs"
  by (induction xs) (auto simp: spread_def split: slot.splits)

lemma answers_ok_spread: "answers_ok xs \<Longrightarrow> spread xs = xs"
  by (rule spread_numbers, rule entries_ok_no_hole [of _ quizQuestions]) (simp add: answers_ok_def)

lemma answers_ok_unanswered: "answers_ok unanswered"
  by (simp add: answers_ok_def unanswered_def list_all2_conv_all_nth entry_ok_def)

lemma answers_ok_write:
  assumes "answers_ok xs" "i < length quizQuestions" "k < length (options (quizQuestions ! i))"
  shows "answers_ok (array_set (spread xs) i (Number (int k)))"
proof -
  from assms(1) have len: "length xs = length quizQuestions"
    and all: "list_all2 entry_ok xs quizQuestions"
    by (simp_all add: answers_ok_def)
  have "entry_ok (Number (int k)) (quizQuestions ! i)"
    using assms(3) by (simp add: entry_ok_def)
  with all have "list_all2 entry_ok (xs[i := Number (int k)]) (quizQuestions[i := quizQuestions ! i])"
    by (rule list_all2_update_cong)
  then have "answers_ok (xs[i := Number (int k)])"
    by (simp add: answers_ok_def len)
  then show ?thesis
    using assms(2) by (simp add: answers_ok_spread [OF assms(1)] array_set_def len)
qed

lemma onClick_preserves:
  assumes "rendered e" "answers_ok (quizAnswers s)"
  shows "answers_ok (quizAnswers (onClick e s))"
proof (cases e)
  case (Select ident)
  with assms show ?thesis by (simp add: select_def setSelectedId_def)
next
  case (ChooseAnswer i k)
  with assms show ?thesis
    by (simp add: chooseAnswer_def setQuizAnswers_def answers_ok_write)
next
  case Reset
  then show ?thesis
    by (simp add: reset_def setQuizAnswers_def answers_ok_unanswered)
next
  case Submit
  with assms show ?thesis by (simp add: submit_def setSubmitted_def)
qed

lemma run_Nil: "run [] s = s"
  by (simp add: run_def)

lemma run_Cons: "run (e # es) s = run es (onClick e s)"
  by (simp add: run_def)

lemma run_snoc: "run (es @ [e]) s = onClick e (run es s)"
  by (simp add: run_def)

lemma run_preserves:
  "\<forall>e \<in> set es. rendered e \<Longrightarrow> answers_ok (quizAnswers s) \<Longrightarrow> answers_ok (quizAnswers (run es s))"
proof (induction es rule: rev_induct)
  case Nil
  then show ?case by (simp add: run_Nil)
next
  case (snoc e es)
  then show ?case by (simp add: run_snoc onClick_preserves)
qed

lemma rendered_ChooseAnswer:
  "i < 3 \<Longrightarrow> k < 4 \<Longrightarrow> rendered (ChooseAnswer i k)"
  using option_counts_quizQuestions
  by (auto simp: length_quizQuestions option_count_nth less_Suc_eq numeral_3_eq_3)

text \<open>
  Claim C7. A sequence of operations is a list of clicks on controls that the page
  renders. After every such sequence from the initial state, there is one recorded
  answer per question, and each is the sentinel \<open>-1\<close> or an option index of its
  question (at least 0 and less than the number of options).
\<close>

theorem answers_invariant:
  assumes "\<forall>e \<in> set es. rendered e"
  shows "length (quizAnswers (run es initial)) = length quizQuestions \<and>
         list_all2 entry_ok (quizAnswers (run es initial)) quizQuestions"
proof -
  have "answers_ok (quizAnswers initial)"
    by (simp add: initial_def answers_ok_unanswered)
  with assms have "answers_ok (quizAnswers (run es initial))"
    by (rule run_preserves)
  then show ?thesis by (simp add: answers_ok_def)
qed

text \<open>
  Claim C7 on six clicks that use all four operations, one of them an option click in
  the Reviewed state.
\<close>

theorem answers_invariant_witness:
  "rendered (ChooseAnswer 0 1) \<and> rendered (Select ''double'') \<and> rendered Submit \<and>
   rendered (ChooseAnswer 1 3) \<and> rendered Reset \<and> rendered (ChooseAnswer 2 0) \<and>
   length (quizAnswers (run [ChooseAnswer 0 1, Select ''double'', Submit, ChooseAnswer 1 3, Reset,
                             ChooseAnswer 2 0] initial)) = length quizQuestions \<and>
   list_all2 entry_ok
     (quizAnswers (run [ChooseAnswer 0 1, Select ''double'', Submit, ChooseAnswer 1 3, Reset,
                        ChooseAnswer 2 0] initial)) quizQuestions \<and>
   quizAnswers (run [ChooseAnswer 0 1, Select ''double'', Submit, ChooseAnswer 1 3, Reset,
                     ChooseAnswer 2 0] initial) = [Number (- 1), Number (- 1), Number 0]"
proof -
  have r: "rendered (ChooseAnswer 0 1)" "rendered (Select ''double'')" "rendered Submit"
    "rendered (ChooseAnswer 1 3)" "rendered Reset" "rendered (ChooseAnswer 2 0)"
    by (simp_all add: rendered_ChooseAnswer ids_reinterpretations del: rendered.simps(2))
  then have h: "\<forall>e \<in> set [ChooseAnswer 0 1, Select ''double'', Submit, ChooseAnswer 1 3, Reset,
                      ChooseAnswer 2 0]. rendered e"
    by simp
  have v: "quizAnswers (run [ChooseAnswer 0 1, Select ''double'', Submit, ChooseAnswer 1 3, Reset,
                     ChooseAnswer 2 0] initial) = [Number (- 1), Number (- 1), Number 0]"
    by (simp add: run_Cons run_Nil initial_def unanswered_eq chooseAnswer_def select_def
        submit_def reset_def setSelectedId_def setQuizAnswers_def setSubmitted_def
        spread_def array_set_def)
  from answers_invariant [OF h] r v show ?thesis by (intro conjI) simp_all
qed

subsection \<open>The score\<close>

lemma answer_at_not_hole: "answer_at qs j \<noteq> Empty"
  by (simp add: answer_at_def)

lemma reduce_from_count:
  "reduce_from (\<lambda>acc a j. if a = answer_at qs j then acc + 1 else acc) acc i xs =
     acc + length (filter (\<lambda>p. fst p = answer_at qs (snd p)) (zip xs [i..<i + length xs]))"
proof (induction xs arbitrary: acc i)
  case Nil
  then show ?case by simp
next
  case (Cons x xs)
  show ?case
  proof (cases x)
    case Empty
    then show ?thesis
      using Cons.IH [of acc "Suc i"] answer_at_not_hole [of qs i]
      by (simp del: upt_Suc add: upt_conv_Cons)
  next
    case Undefined
    then show ?thesis
      using Cons.IH [of "if x = answer_at qs i then acc + 1 else acc" "Suc i"]
      by (simp del: upt_Suc add: upt_conv_Cons)
  next
    case (Number n)
    then show ?thesis
      using Cons.IH [of "if x = answer_at qs i then acc + 1 else acc" "Suc i"]
      by (simp del: upt_Suc add: upt_conv_Cons)
  qed
qed

lemma zip_indices: "zip xs [0..<length xs] = map (\<lambda>j. (xs ! j, j)) [0..<length xs]"
  by (rule nth_equalityI) simp_all

lemma score_with_count:
  "score_with qs xs = length (filter (\<lambda>j. xs ! j = answer_at qs j) [0..<length xs])"
proof -
  have "score_with qs xs =
          length (filter (\<lambda>p. fst p = answer_at qs (snd p)) (zip xs [0..<length xs]))"
    using reduce_from_count [of qs 0 0 xs] by (simp add: score_with_def reduce_def)
  also have "\<dots> = length (filter (\<lambda>j. xs ! j = answer_at qs j) [0..<length xs])"
    by (simp only: zip_indices filter_map length_map comp_def fst_conv snd_conv)
  finally show ?thesis .
qed

lemma score_count:
  assumes "length (quizAnswers s) = length quizQuestions"
  shows "score s = length (filter (\<lambda>j. quizAnswers s ! j = Number (answer (quizQuestions ! j)))
                     [0..<length quizQuestions])"
proof -
  have "filter (\<lambda>j. quizAnswers s ! j = answer_at quizQuestions j) [0..<length quizQuestions] =
        filter (\<lambda>j. quizAnswers s ! j = Number (answer (quizQuestions ! j))) [0..<length quizQuestions]"
    by (rule filter_cong) (simp_all add: answer_at_def)
  then show ?thesis by (simp add: score_def score_with_count assms)
qed

lemma score_with_scenario:
  assumes "map answer qs = [1, 0, 2]"
  shows "score_with qs [Number 1, Number 1, Number 2] = 2"
proof -
  from assms obtain q0 q1 q2 where qs: "qs = [q0, q1, q2]"
    and a: "answer q0 = 1" "answer q1 = 0" "answer q2 = 2"
    by (auto simp: map_eq_Cons_conv)
  show ?thesis
    by (simp add: qs a score_with_def reduce_def answer_at_def)
qed

lemma chooseAll_Nil: "chooseAll [] s = s"
  by (simp add: chooseAll_def run_Nil)

lemma chooseAll_snoc:
  "chooseAll (calls @ [c]) s = chooseAnswer (fst c) (snd c) (chooseAll calls s)"
  by (simp add: chooseAll_def run_snoc)

lemma chooseAll_submitted: "submitted (chooseAll calls s) = submitted s"
  by (induction calls rule: rev_induct)
     (simp_all add: chooseAll_Nil chooseAll_snoc chooseAnswer_def setQuizAnswers_def)

lemma chooseAll_ok:
  assumes "\<forall>c \<in> set calls. rendered (ChooseAnswer (fst c) (snd c))" "answers_ok (quizAnswers s)"
  shows "answers_ok (quizAnswers (chooseAll calls s))"
  unfolding chooseAll_def using assms by (intro run_preserves) auto

lemma latest_Nil: "latest before [] i = before ! i"
  by (simp add: latest_def)

lemma latest_snoc:
  "latest before (calls @ [c]) i =
     (if fst c = i then Number (int (snd c)) else latest before calls i)"
  by (simp add: latest_def Let_def)

lemma chooseAnswer_answers:
  assumes "\<not> submitted s" "answers_ok (quizAnswers s)" "j < length quizQuestions"
  shows "quizAnswers (chooseAnswer j k s) = (quizAnswers s)[j := Number (int k)]"
  using assms
  by (simp add: chooseAnswer_def setQuizAnswers_def answers_ok_spread array_set_def answers_ok_def)

lemma chooseAll_latest:
  assumes "\<not> submitted s" "answers_ok (quizAnswers s)"
    and "\<forall>c \<in> set calls. rendered (ChooseAnswer (fst c) (snd c))"
    and "i < length quizQuestions"
  shows "quizAnswers (chooseAll calls s) ! i = latest (quizAnswers s) calls i"
  using assms(3)
proof (induction calls rule: rev_induct)
  case Nil
  then show ?case by (simp add: chooseAll_Nil latest_Nil)
next
  case (snoc c calls)
  let ?t = "chooseAll calls s"
  from snoc.prems have r: "\<forall>c \<in> set calls. rendered (ChooseAnswer (fst c) (snd c))"
    and c: "fst c < length quizQuestions"
    by simp_all
  have ok: "answers_ok (quizAnswers ?t)" by (rule chooseAll_ok [OF r assms(2)])
  have ns: "\<not> submitted ?t" by (simp add: chooseAll_submitted assms(1))
  have len: "length (quizAnswers ?t) = length quizQuestions"
    using ok by (simp add: answers_ok_def)
  show ?case
    using snoc.IH [OF r] assms(4)
    by (simp add: chooseAll_snoc chooseAnswer_answers [OF ns ok c] latest_snoc len nth_list_update)
qed

text \<open>
  Claim C1. Take a state in the Answering state that satisfies the invariant of the
  recorded answers, and any sequence of \<^verbatim>\<open>chooseAnswer\<close> calls made by option buttons
  that the page renders. Then the score is the number of questions whose latest recorded
  answer is the question's correct index; a question whose latest recorded answer is the
  sentinel \<open>-1\<close> is never among the questions counted; and for every table of 3 questions
  with correct indices 1, 0, 2, the recorded answers 1, 1, 2 score 2.
\<close>

theorem score_counts_latest_correct:
  assumes "\<not> submitted s" and "answers_ok (quizAnswers s)"
    and "\<forall>c \<in> set calls. rendered (ChooseAnswer (fst c) (snd c))"
  shows "score (chooseAll calls s) =
           length (filter (\<lambda>i. latest (quizAnswers s) calls i = Number (answer (quizQuestions ! i)))
                     [0..<length quizQuestions]) \<and>
         (\<forall>i < length quizQuestions.
            latest (quizAnswers s) calls i = Number (- 1) \<longrightarrow>
            i \<notin> set (filter (\<lambda>i. latest (quizAnswers s) calls i = Number (answer (quizQuestions ! i)))
                     [0..<length quizQuestions])) \<and>
         (map answer qs = [1, 0, 2] \<longrightarrow> score_with qs [Number 1, Number 1, Number 2] = 2)"
proof -
  have ok: "answers_ok (quizAnswers (chooseAll calls s))"
    by (rule chooseAll_ok [OF assms(3) assms(2)])
  then have len: "length (quizAnswers (chooseAll calls s)) = length quizQuestions"
    by (simp add: answers_ok_def)
  have "filter (\<lambda>i. quizAnswers (chooseAll calls s) ! i = Number (answer (quizQuestions ! i)))
          [0..<length quizQuestions] =
        filter (\<lambda>i. latest (quizAnswers s) calls i = Number (answer (quizQuestions ! i)))
          [0..<length quizQuestions]"
    by (rule filter_cong) (simp_all add: chooseAll_latest [OF assms])
  then have 1: "score (chooseAll calls s) =
           length (filter (\<lambda>i. latest (quizAnswers s) calls i = Number (answer (quizQuestions ! i)))
                     [0..<length quizQuestions])"
    by (simp add: score_count [OF len])
  have 2: "\<forall>i < length quizQuestions.
            latest (quizAnswers s) calls i = Number (- 1) \<longrightarrow>
            i \<notin> set (filter (\<lambda>i. latest (quizAnswers s) calls i = Number (answer (quizQuestions ! i)))
                     [0..<length quizQuestions])"
  proof (intro allI impI)
    fix i
    assume "i < length quizQuestions" "latest (quizAnswers s) calls i = Number (- 1)"
    then show "i \<notin> set (filter (\<lambda>i. latest (quizAnswers s) calls i = Number (answer (quizQuestions ! i)))
                     [0..<length quizQuestions])"
      using sentinel_not_correct [of i] by auto
  qed
  have 3: "map answer qs = [1, 0, 2] \<longrightarrow> score_with qs [Number 1, Number 1, Number 2] = 2"
    by (rule impI) (rule score_with_scenario)
  show ?thesis by (rule conjI [OF 1 conjI [OF 2 3]])
qed

text \<open>
  Claim C1 from the initial state, on three calls that answer question 0 correctly,
  change the answer of question 1 from a wrong option to the correct one and leave
  question 2 unanswered: the score is 2 and question 2 is not counted. The table of the
  scenario is built from the page's first question with the correct indices 1, 0, 2.
\<close>

theorem score_counts_latest_correct_witness:
  "\<not> submitted initial \<and> answers_ok (quizAnswers initial) \<and>
   rendered (ChooseAnswer 0 1) \<and> rendered (ChooseAnswer 1 1) \<and> rendered (ChooseAnswer 1 2) \<and>
   score (chooseAll [(0, 1), (1, 1), (1, 2)] initial) = 2 \<and>
   2 < length quizQuestions \<and>
   latest (quizAnswers initial) [(0, 1), (1, 1), (1, 2)] 2 = Number (- 1) \<and>
   2 \<notin> set (filter (\<lambda>i. latest (quizAnswers initial) [(0, 1), (1, 1), (1, 2)] i =
                          Number (answer (quizQuestions ! i))) [0..<length quizQuestions]) \<and>
   map answer (map (\<lambda>a. (quizQuestions ! 0)\<lparr>answer := a\<rparr>) [1, 0, 2]) = [1, 0, 2] \<and>
   score_with (map (\<lambda>a. (quizQuestions ! 0)\<lparr>answer := a\<rparr>) [1, 0, 2])
     [Number 1, Number 1, Number 2] = 2"
proof -
  let ?calls = "[(0, 1), (1, 1), (1, 2)] :: (nat \<times> nat) list"
  let ?qs = "map (\<lambda>a. (quizQuestions ! 0)\<lparr>answer := a\<rparr>) [1, 0, 2]"
  have h1: "\<not> submitted initial"
    by (simp add: initial_def)
  have h2: "answers_ok (quizAnswers initial)"
    by (simp add: initial_def answers_ok_unanswered)
  have h3: "\<forall>c \<in> set ?calls. rendered (ChooseAnswer (fst c) (snd c))"
    by (simp add: rendered_ChooseAnswer del: rendered.simps(2))
  have h4: "map answer ?qs = [1, 0, 2]"
    by simp
  have l: "latest (quizAnswers initial) ?calls 2 = Number (- 1)"
    by (simp add: latest_def initial_def unanswered_eq)
  have n: "(2::nat) < length quizQuestions"
    by (simp add: length_quizQuestions)
  have f: "length (filter (\<lambda>i. latest (quizAnswers initial) ?calls i =
                                 Number (answer (quizQuestions ! i))) [0..<length quizQuestions]) = 2"
    by (simp add: length_quizQuestions upt_3 latest_def initial_def unanswered_eq answer_nth
        answers_quizQuestions)
  have r: "rendered (ChooseAnswer 0 1)" "rendered (ChooseAnswer 1 1)" "rendered (ChooseAnswer 1 2)"
    using h3 by simp_all
  from score_counts_latest_correct [OF h1 h2 h3, of ?qs] h4 l n f
  have c: "score (chooseAll ?calls initial) = 2"
    "2 \<notin> set (filter (\<lambda>i. latest (quizAnswers initial) ?calls i =
                          Number (answer (quizQuestions ! i))) [0..<length quizQuestions])"
    "score_with ?qs [Number 1, Number 1, Number 2] = 2"
    by simp_all
  from h1 h2 r c l n h4 show ?thesis by (intro conjI)
qed

text \<open>
  The restriction to calls made by rendered buttons is needed. A call for a question
  index past the end of the table, which no button of the page makes, extends the
  array and leaves holes; the next call copies the holes as \<^verbatim>\<open>undefined\<close>, and
  each of them equals \<^verbatim>\<open>quizQuestions[index]?.answer\<close> past the end of the table.
  After the calls (5, 0) and (0, 1) from the initial state one question is answered
  correctly and the score is 3.
\<close>

lemma unrendered_call_answers:
  "quizAnswers (chooseAll [(5, 0), (0, 1)] initial) =
     [Number 1, Number (- 1), Number (- 1), Undefined, Undefined, Number 0]"
  by (simp add: chooseAll_def run_Cons run_Nil initial_def unanswered_eq chooseAnswer_def
      setQuizAnswers_def spread_def array_set_def numeral_2_eq_2)

lemma unrendered_call_score:
  "\<not> rendered (ChooseAnswer 5 0) \<and> score (chooseAll [(5, 0), (0, 1)] initial) = 3"
proof -
  have "score (chooseAll [(5, 0), (0, 1)] initial) =
          score_with quizQuestions
            [Number 1, Number (- 1), Number (- 1), Undefined, Undefined, Number 0]"
    by (simp only: score_def unrendered_call_answers)
  also have "\<dots> = 3"
    by (simp add: score_with_count answer_at_def length_quizQuestions upt_rec answer_nth
        answers_quizQuestions)
  finally show ?thesis by (simp add: length_quizQuestions)
qed


end
